theory Spec2Isabelle
  imports Main
begin

section \<open>Python strings\<close>

text \<open>
  A Python \<open>str\<close> is modelled as a \<open>string\<close>, one \<open>char\<close> per code point; the model
  covers the code points below 256 (ASCII and Latin-1), on which \<open>str.lower\<close> works
  character by character.
\<close>

definition lower_char :: "char \<Rightarrow> char" where
  "lower_char c =
     (let n = (of_char c :: nat)
      in if 65 \<le> n \<and> n \<le> 90 then char_of (n + 32)
         else if 192 \<le> n \<and> n \<le> 222 \<and> n \<noteq> 215 then char_of (n + 32)
         else c)"

text \<open>\<open>s.lower()\<close>\<close>

definition lower :: "string \<Rightarrow> string" where
  "lower s = map lower_char s"

text \<open>\<open>s.startswith(p)\<close>\<close>

fun startswith :: "string \<Rightarrow> string \<Rightarrow> bool" where
  "startswith s [] = True"
| "startswith [] (p # ps) = False"
| "startswith (c # s) (p # ps) = (c = p \<and> startswith s ps)"

text \<open>\<open>p in s\<close>: \<open>p\<close> occurs in \<open>s\<close> as a contiguous substring.\<close>

fun str_in :: "string \<Rightarrow> string \<Rightarrow> bool" where
  "str_in p [] = (p = [])"
| "str_in p (c # s) = (startswith (c # s) p \<or> str_in p s)"

text \<open>\<open>c.isspace()\<close> on the code points below 256.\<close>

definition isspace :: "char \<Rightarrow> bool" where
  "isspace c =
     (let n = (of_char c :: nat)
      in (9 \<le> n \<and> n \<le> 13) \<or> (28 \<le> n \<and> n \<le> 32) \<or> n = 133 \<or> n = 160)"

text \<open>\<open>s.strip()\<close>\<close>

definition strip :: "string \<Rightarrow> string" where
  "strip s = rev (dropWhile isspace (rev (dropWhile isspace s)))"

text \<open>
  \<open>s.split(sep)\<close> for a non-empty separator: the scan goes from left to right and takes
  each occurrence of \<open>sep\<close> that does not overlap the one before. \<open>cur\<close> is the piece
  being read, reversed; \<open>k\<close> counts the characters of a matched separator still to skip.
\<close>

fun split_scan :: "string \<Rightarrow> string \<Rightarrow> nat \<Rightarrow> string \<Rightarrow> string list" where
  "split_scan sep cur k [] = [rev cur]"
| "split_scan sep cur (Suc k) (c # s) = split_scan sep cur k s"
| "split_scan sep cur 0 (c # s) =
     (if startswith (c # s) sep then rev cur # split_scan sep [] (length sep - 1) s
      else split_scan sep (c # cur) 0 s)"

text \<open>
  Exceptions derived from \<open>Exception\<close>, each with its message. Interrupts
  (\<open>KeyboardInterrupt\<close>) are not modelled.
\<close>

datatype exn =
    WaitTimeoutError string
  | UnknownValueError string
  | RequestError string
  | ValueError string
  | IndexError string
  | OtherException string

text \<open>\<open>str(e)\<close>\<close>

fun exn_str :: "exn \<Rightarrow> string" where
  "exn_str (WaitTimeoutError m) = m"
| "exn_str (UnknownValueError m) = m"
| "exn_str (RequestError m) = m"
| "exn_str (ValueError m) = m"
| "exn_str (IndexError m) = m"
| "exn_str (OtherException m) = m"

text \<open>\<open>s.split(sep)\<close>; an empty separator raises \<open>ValueError\<close>.\<close>

definition split :: "string \<Rightarrow> string \<Rightarrow> exn + string list" where
  "split s sep =
     (if sep = [] then Inl (ValueError ''empty separator'') else Inr (split_scan sep [] 0 s))"

section \<open>Command types and patterns\<close>

datatype CommandType =
    TIME | DATE | WEATHER | SEARCH | OPEN_APP | SYSTEM | VOLUME | MUSIC
  | INFO | SMART_HOME | REMINDER | NOTE | UNKNOWN

text \<open>\<open>cmd_type.value\<close>\<close>

fun CommandType_value :: "CommandType \<Rightarrow> string" where
  "CommandType_value TIME = ''time''"
| "CommandType_value DATE = ''date''"
| "CommandType_value WEATHER = ''weather''"
| "CommandType_value SEARCH = ''search''"
| "CommandType_value OPEN_APP = ''open_app''"
| "CommandType_value SYSTEM = ''system''"
| "CommandType_value VOLUME = ''volume''"
| "CommandType_value MUSIC = ''music''"
| "CommandType_value INFO = ''info''"
| "CommandType_value SMART_HOME = ''smart_home''"
| "CommandType_value REMINDER = ''reminder''"
| "CommandType_value NOTE = ''note''"
| "CommandType_value UNKNOWN = ''unknown''"

text \<open>
  \<open>CommandProcessor.command_patterns\<close>: a dict literal, iterated in insertion order, hence
  an association list.
\<close>

definition command_patterns :: "(CommandType \<times> string list) list" where
  "command_patterns =
     [(TIME, [''time'', ''clock'', ''what time'']),
      (DATE, [''date'', ''day'', ''what day'']),
      (WEATHER, [''weather'', ''temperature'', ''forecast'']),
      (SEARCH, [''search'', ''google'', ''look up'', ''find'']),
      (OPEN_APP, [''open'', ''launch'', ''start'']),
      (VOLUME, [''volume'', ''sound'', ''mute'', ''unmute'']),
      (MUSIC, [''play music'', ''pause music'', ''stop music'', ''next song'']),
      (INFO, [''tell me about'', ''what is'', ''who is'', ''define'']),
      (SMART_HOME, [''lights'', ''temperature'', ''thermostat'', ''lock'', ''unlock'']),
      (REMINDER, [''remind'', ''reminder'', ''alert me'']),
      (NOTE, [''note'', ''write down'', ''remember this''])]"

text \<open>\<open>any(pattern in s for pattern in patterns)\<close>\<close>

definition any_in :: "string list \<Rightarrow> string \<Rightarrow> bool" where
  "any_in patterns s = list_ex (\<lambda>pattern. str_in pattern s) patterns"

text \<open>The \<open>for\<close> loop of \<open>classify_command\<close> over the items of a pattern table.\<close>

fun classify_loop :: "(CommandType \<times> string list) list \<Rightarrow> string \<Rightarrow> CommandType" where
  "classify_loop [] command_lower = UNKNOWN"
| "classify_loop ((cmd_type, patterns) # rest) command_lower =
     (if any_in patterns command_lower then cmd_type
      else classify_loop rest command_lower)"

definition classify_command :: "string \<Rightarrow> CommandType" where
  "classify_command command = classify_loop command_patterns (lower command)"


section \<open>The environment: clock, logger, speech, microphone, browser\<close>

record datetime =
  year :: nat
  month :: nat
  day :: nat
  hour :: nat
  minute :: nat
  second :: nat

datatype log_level = LDebug | LInfo | LWarning | LError

fun level_no :: "log_level \<Rightarrow> nat" where
  "level_no LDebug = 10"
| "level_no LInfo = 20"
| "level_no LWarning = 30"
| "level_no LError = 40"

datatype 'a attempt = Returns 'a | Raises exn

text \<open>
  What one call of \<open>SpeechManager.listen\<close> meets: the outcome of
  \<open>recognizer.listen\<close> (the audio itself is opaque), of \<open>recognize_google\<close> and of
  \<open>recognize_sphinx\<close> on that audio.
\<close>

record capture =
  heard :: "unit attempt"
  google :: "string attempt"
  sphinx :: "string attempt"

text \<open>
  The world outside the assistant. \<open>clock\<close> gives the reading of the k-th call of
  \<open>datetime.datetime.now()\<close>; \<open>microphone\<close> gives what the k-th call of \<open>listen\<close> meets,
  for its timeout and phrase limit; \<open>tts\<close>, \<open>tts_stop\<close>, \<open>browser\<close> and \<open>save_prefs\<close> say
  whether the text-to-speech engine, the web browser and the preferences file fail.
  \<open>spoken\<close> are the texts handed to the speech engine (and printed), \<open>logged\<close> the
  records the logger kept, \<open>opened\<close> the URLs opened in the browser.
\<close>

record world =
  spoken :: "string list"
  logged :: "(log_level \<times> string) list"
  opened :: "string list"
  clock :: "nat \<Rightarrow> datetime"
  clock_reads :: nat
  microphone :: "nat \<Rightarrow> nat \<Rightarrow> nat \<Rightarrow> capture"
  capture_reads :: nat
  tts :: "string \<Rightarrow> exn option"
  tts_stop :: "exn option"
  browser :: "string \<Rightarrow> exn option"
  save_prefs :: "exn option"

text \<open>The logger is set to level \<open>INFO\<close>: records below it are dropped.\<close>

definition logger_log :: "log_level \<Rightarrow> string \<Rightarrow> world \<Rightarrow> world" where
  "logger_log lvl msg w =
     (if level_no LInfo \<le> level_no lvl then w\<lparr>logged := logged w @ [(lvl, msg)]\<rparr> else w)"

definition logger_debug :: "string \<Rightarrow> world \<Rightarrow> world" where
  "logger_debug = logger_log LDebug"

definition logger_info :: "string \<Rightarrow> world \<Rightarrow> world" where
  "logger_info = logger_log LInfo"

definition logger_warning :: "string \<Rightarrow> world \<Rightarrow> world" where
  "logger_warning = logger_log LWarning"

definition logger_error :: "string \<Rightarrow> world \<Rightarrow> world" where
  "logger_error = logger_log LError"

text \<open>\<open>datetime.datetime.now()\<close>\<close>

definition datetime_now :: "world \<Rightarrow> datetime \<times> world" where
  "datetime_now w = (clock w (clock_reads w), w\<lparr>clock_reads := Suc (clock_reads w)\<rparr>)"

text \<open>
  \<open>SpeechManager.speak(text)\<close> with \<open>wait=True\<close>, as every call of the source has it:
  the text is printed and handed to the engine; a failure of the engine is logged inside
  \<open>speak\<close>, which always returns.
\<close>

definition speak :: "string \<Rightarrow> world \<Rightarrow> world" where
  "speak text w =
     (let w1 = w\<lparr>spoken := spoken w @ [text]\<rparr>
      in case tts w text of
           None \<Rightarrow> w1
         | Some e \<Rightarrow> logger_error (''TTS error: '' @ exn_str e) w1)"

text \<open>The outer \<open>except\<close> clauses of \<open>SpeechManager.listen\<close>.\<close>

fun listen_except :: "exn \<Rightarrow> world \<Rightarrow> string option \<times> world" where
  "listen_except (WaitTimeoutError m) w = (None, w)"
| "listen_except (UnknownValueError m) w = (None, w)"
| "listen_except e w = (None, logger_error (''Speech recognition error: '' @ exn_str e) w)"

text \<open>The end of the \<open>try\<close> block of \<open>listen\<close>: \<open>if text: logger.info(...)\<close>, \<open>return text\<close>.\<close>

fun listen_return :: "string option \<Rightarrow> world \<Rightarrow> string option \<times> world" where
  "listen_return None w = (None, w)"
| "listen_return (Some text) w =
     (if text \<noteq> [] then (Some text, logger_info (''Recognized: '' @ text) w)
      else (Some text, w))"

text \<open>\<open>SpeechManager.listen(timeout, phrase_limit)\<close>\<close>

definition listen :: "nat \<Rightarrow> nat \<Rightarrow> world \<Rightarrow> string option \<times> world" where
  "listen timeout phrase_limit w =
     (let cap = microphone w (capture_reads w) timeout phrase_limit;
          w1 = logger_debug ''Listening...'' (w\<lparr>capture_reads := Suc (capture_reads w)\<rparr>)
      in case heard cap of
           Raises e \<Rightarrow> listen_except e w1
         | Returns audio \<Rightarrow>
             (case google cap of
                Returns text \<Rightarrow> listen_return (Some (lower text)) w1
              | Raises (RequestError m) \<Rightarrow>
                  (let w2 = logger_warning ''Google recognition failed, trying alternatives...'' w1
                   in case sphinx cap of
                        Returns text \<Rightarrow> listen_return (Some (lower text)) w2
                      | Raises e \<Rightarrow> listen_return None w2)
              | Raises e \<Rightarrow> listen_except e w1))"

text \<open>\<open>webbrowser.open(url)\<close>\<close>

definition webbrowser_open :: "string \<Rightarrow> world \<Rightarrow> exn option \<times> world" where
  "webbrowser_open url w =
     (case browser w url of
        None \<Rightarrow> (None, w\<lparr>opened := opened w @ [url]\<rparr>)
      | Some e \<Rightarrow> (Some e, w))"

section \<open>Command handlers\<close>

text \<open>
  A handler takes the command and acts on the world; it returns the exception it raised,
  if any. No handler of the source reads or writes the command history.
\<close>

type_synonym handler = "string \<Rightarrow> world \<Rightarrow> exn option \<times> world"

definition digit_char :: "nat \<Rightarrow> char" where
  "digit_char n = char_of (48 + n mod 10)"

definition two_digits :: "nat \<Rightarrow> string" where
  "two_digits n = [digit_char (n div 10), digit_char n]"

text \<open>\<open>t.strftime("%I:%M %p")\<close> in the C locale: 12-hour clock, minutes, AM or PM.\<close>

definition strftime_I_M_p :: "datetime \<Rightarrow> string" where
  "strftime_I_M_p t =
     two_digits (if hour t mod 12 = 0 then 12 else hour t mod 12) @ '':'' @
     two_digits (minute t) @ '' '' @ (if hour t < 12 then ''AM'' else ''PM'')"

text \<open>
  \<open>_handle_time\<close>. Nothing in its \<open>try\<close> block raises, so its \<open>except\<close> branch is
  never taken.
\<close>

definition handle_time :: handler where
  "handle_time command w =
     (let (current_time, w1) = datetime_now w;
          time_str = strftime_I_M_p current_time
      in (None, speak (''It's '' @ time_str) w1))"

definition search_terms :: "string list" where
  "search_terms = [''search for'', ''google'', ''search'', ''look up'', ''find'']"

text \<open>\<open>parts[-1]\<close>\<close>

definition last_part :: "string list \<Rightarrow> exn + string" where
  "last_part parts =
     (case parts of [] \<Rightarrow> Inl (IndexError ''list index out of range'') | _ \<Rightarrow> Inr (last parts))"

text \<open>
  The \<open>for term in terms\<close> loop of \<open>_handle_search\<close>: at the first term that occurs in
  the query, \<open>query = query.split(term)[-1].strip()\<close> and \<open>break\<close>.
\<close>

fun extract_after :: "string list \<Rightarrow> string \<Rightarrow> exn + string" where
  "extract_after [] query = Inr query"
| "extract_after (term # rest) query =
     (if str_in term query then
        (case split query term of
           Inl e \<Rightarrow> Inl e
         | Inr parts \<Rightarrow> (case last_part parts of Inl e \<Rightarrow> Inl e | Inr part \<Rightarrow> Inr (strip part)))
      else extract_after rest query)"

text \<open>The query of \<open>_handle_search\<close> after its loop.\<close>

definition search_query :: "string \<Rightarrow> exn + string" where
  "search_query command = extract_after search_terms (lower command)"

text \<open>The \<open>except Exception\<close> branch of \<open>_handle_search\<close>.\<close>

definition search_except :: "exn \<Rightarrow> world \<Rightarrow> exn option \<times> world" where
  "search_except e w =
     (None, speak ''Sorry, I couldn't perform the search.''
              (logger_error (''Search handler error: '' @ exn_str e) w))"

text \<open>\<open>_handle_search\<close>\<close>

definition handle_search :: handler where
  "handle_search command w =
     (case search_query command of
        Inl e \<Rightarrow> search_except e w
      | Inr query \<Rightarrow>
          if query \<noteq> [] \<and> query \<noteq> lower command then
            (case webbrowser_open (''https://www.google.com/search?q='' @ query) w of
               (Some e, w1) \<Rightarrow> search_except e w1
             | (None, w1) \<Rightarrow> (None, speak (''I've opened search results for '' @ query) w1))
          else (None, speak ''What would you like me to search for?'' w))"

text \<open>\<open>_handle_unknown\<close>\<close>

definition handle_unknown :: handler where
  "handle_unknown command w =
     (None, speak ''I'm not sure how to help with that. Could you please rephrase?'' w)"

text \<open>
  The handler methods of a \<open>CommandProcessor\<close>, by the command type they serve.
  \<open>_handle_time\<close>, \<open>_handle_search\<close> and \<open>_handle_unknown\<close> are the ones above; the
  others (date, weather, applications, volume, music, information, smart home, reminders,
  notes) act on external services and are a parameter.
\<close>

fun ron_methods :: "(CommandType \<Rightarrow> handler) \<Rightarrow> CommandType \<Rightarrow> handler" where
  "ron_methods ext TIME = handle_time"
| "ron_methods ext SEARCH = handle_search"
| "ron_methods ext UNKNOWN = handle_unknown"
| "ron_methods ext cmd_type = ext cmd_type"

section \<open>The command processor\<close>

datatype pyval = PyDatetime datetime | PyStr string | PyEnum CommandType

text \<open>A history entry is a dict literal: its keys and values in insertion order.\<close>

type_synonym entry = "(string \<times> pyval) list"

text \<open>
  The assistant: the world it acts on, \<open>CommandProcessor.command_history\<close>,
  \<open>RonAI.is_running\<close> and \<open>preferences.wake_words\<close>.
\<close>

record ron =
  env :: world
  command_history :: "entry list"
  is_running :: bool
  wake_words :: "string list"

definition exit_words :: "string list" where
  "exit_words = [''goodbye'', ''exit'', ''quit'', ''bye'']"

text \<open>The dict \<open>handlers\<close> built in \<open>process\<close> from the methods \<open>self\<close>.\<close>

definition handlers :: "(CommandType \<Rightarrow> handler) \<Rightarrow> (CommandType \<times> handler) list" where
  "handlers self =
     [(TIME, self TIME), (DATE, self DATE), (WEATHER, self WEATHER), (SEARCH, self SEARCH),
      (OPEN_APP, self OPEN_APP), (VOLUME, self VOLUME), (MUSIC, self MUSIC),
      (INFO, self INFO), (SMART_HOME, self SMART_HOME), (REMINDER, self REMINDER),
      (NOTE, self NOTE), (UNKNOWN, self UNKNOWN)]"

text \<open>\<open>d.get(key, default)\<close>\<close>

definition dict_get :: "('k \<times> 'v) list \<Rightarrow> 'k \<Rightarrow> 'v \<Rightarrow> 'v" where
  "dict_get d key dflt = (case map_of d key of Some v \<Rightarrow> v | None \<Rightarrow> dflt)"

text \<open>
  \<open>CommandProcessor.process(command)\<close>: the returned flag says whether to continue.
  Before the handler runs nothing in the \<open>try\<close> block raises; an exception of the
  handler is caught by \<open>except Exception\<close>.
\<close>

definition process :: "(CommandType \<Rightarrow> handler) \<Rightarrow> string \<Rightarrow> ron \<Rightarrow> bool \<times> ron" where
  "process self command r =
     (let (now, w1) = datetime_now (env r);
          history = command_history r @ [[(''timestamp'', PyDatetime now), (''command'', PyStr command)]];
          cmd_type = classify_command command;
          w2 = logger_info (''Command type: '' @ CommandType_value cmd_type) w1
      in if any_in exit_words (lower command) then
           (False, r\<lparr>env := speak ''Goodbye! It was nice talking to you.'' w2,
                     command_history := history\<rparr>)
         else
           (let handler = dict_get (handlers self) cmd_type (self UNKNOWN)
            in case handler command w2 of
                 (None, w3) \<Rightarrow> (True, r\<lparr>env := w3, command_history := history\<rparr>)
               | (Some e, w3) \<Rightarrow>
                   (True,
                    r\<lparr>env := speak ''Sorry, I encountered an error processing that command.''
                                (logger_error (''Command processing error: '' @ exn_str e) w3),
                      command_history := history\<rparr>)))"

section \<open>The session loop\<close>

text \<open>
  \<open>RonAI.handle_activation\<close>. Neither \<open>speak\<close>, \<open>listen\<close> nor \<open>process\<close> raises, so its
  \<open>except\<close> branch is never taken.
\<close>

definition handle_activation :: "(CommandType \<Rightarrow> handler) \<Rightarrow> ron \<Rightarrow> ron" where
  "handle_activation self r =
     (let w1 = speak ''Yes, how can I help you?'' (env r);
          (command, w2) = listen 5 10 w1;
          r2 = r\<lparr>env := w2\<rparr>
      in case command of
           None \<Rightarrow> r2\<lparr>env := speak ''I didn't hear anything. Please try again.'' w2\<rparr>
         | Some text \<Rightarrow>
             if text \<noteq> [] then
               (let (should_continue, r3) = process self text r2
                in if \<not> should_continue then r3\<lparr>is_running := False\<rparr> else r3)
             else r2\<lparr>env := speak ''I didn't hear anything. Please try again.'' w2\<rparr>)"

text \<open>
  One pass through the body of the \<open>while self.is_running\<close> loop of \<open>RonAI.run\<close>
  (the \<open>time.sleep\<close> calls are left out).
\<close>

definition run_iteration :: "(CommandType \<Rightarrow> handler) \<Rightarrow> ron \<Rightarrow> ron" where
  "run_iteration self r =
     (let (text, w1) = listen 1 3 (env r);
          r1 = r\<lparr>env := w1\<rparr>
      in case text of
           None \<Rightarrow> r1
         | Some t \<Rightarrow>
             if t \<noteq> [] then
               (if any_in (wake_words r1) t then handle_activation self r1 else r1)
             else r1)"

text \<open>
  The loop itself, with fuel: \<open>None\<close> when the assistant is still running after \<open>n\<close>
  passes.
\<close>

fun run_loop :: "nat \<Rightarrow> (CommandType \<Rightarrow> handler) \<Rightarrow> ron \<Rightarrow> ron option" where
  "run_loop 0 self r = (if is_running r then None else Some r)"
| "run_loop (Suc n) self r =
     (if is_running r then run_loop n self (run_iteration self r) else Some r)"

text \<open>
  \<open>RonAI.shutdown\<close>: \<open>save_preferences\<close> logs its own failure; a failure of
  \<open>tts_engine.stop()\<close> is caught by the \<open>except\<close> branch of \<open>shutdown\<close>.
\<close>

definition shutdown :: "ron \<Rightarrow> ron" where
  "shutdown r =
     (let w1 = logger_info ''Shutting down Ron AI...'' (env r);
          w2 = (case save_prefs w1 of
                  None \<Rightarrow> logger_info ''Preferences saved successfully'' w1
                | Some e \<Rightarrow> logger_error (''Failed to save preferences: '' @ exn_str e) w1)
      in case tts_stop w2 of
           Some e \<Rightarrow> r\<lparr>env := logger_error (''Error during shutdown: '' @ exn_str e) w2\<rparr>
         | None \<Rightarrow>
             r\<lparr>env := logger_info ''Ron AI shutdown complete''
                        (speak ''Ron shutting down. Goodbye!'' w2)\<rparr>)"

text \<open>\<open>RonAI.run\<close>, with the fuel of its loop.\<close>

definition run :: "nat \<Rightarrow> (CommandType \<Rightarrow> handler) \<Rightarrow> ron \<Rightarrow> ron option" where
  "run n self r =
     (let r1 = r\<lparr>is_running := True\<rparr>;
          r2 = r1\<lparr>env := speak ''Hello! I'm Ron, your AI assistant. Say 'Hey Ron' to activate me.''
                            (env r1)\<rparr>
      in map_option shutdown (run_loop n self r2))"

section \<open>Notions used to state the properties\<close>

text \<open>The order in which \<open>classify_command\<close> visits the categories.\<close>

definition category_order :: "CommandType list" where
  "category_order = map fst command_patterns"

text \<open>The trigger substrings of a category; none for a category without patterns.\<close>

definition triggers_of :: "CommandType \<Rightarrow> string list" where
  "triggers_of C = (case map_of command_patterns C of None \<Rightarrow> [] | Some patterns \<Rightarrow> patterns)"

text \<open>The text \<open>s\<close> contains a trigger substring of category \<open>C\<close>.\<close>

definition has_trigger :: "CommandType \<Rightarrow> string \<Rightarrow> bool" where
  "has_trigger C s = any_in (triggers_of C) s"

text \<open>The categories visited before \<open>C\<close>.\<close>

definition earlier :: "CommandType \<Rightarrow> CommandType list" where
  "earlier C = takeWhile (\<lambda>D. D \<noteq> C) category_order"

text \<open>The utterance contains a termination phrase, in any letter case.\<close>

definition has_exit_word :: "string \<Rightarrow> bool" where
  "has_exit_word U = any_in exit_words (lower U)"

text \<open>The handler that \<open>process\<close> selects for a command.\<close>

definition selected_handler :: "(CommandType \<Rightarrow> handler) \<Rightarrow> string \<Rightarrow> handler" where
  "selected_handler self command =
     dict_get (handlers self) (classify_command command) (self UNKNOWN)"

text \<open>The world in which \<open>process\<close> runs the selected handler.\<close>

definition world_at_dispatch :: "string \<Rightarrow> ron \<Rightarrow> world" where
  "world_at_dispatch command r =
     logger_info (''Command type: '' @ CommandType_value (classify_command command))
       (snd (datetime_now (env r)))"

text \<open>The history entry \<open>process\<close> writes for a command.\<close>

definition entry_of :: "string \<Rightarrow> ron \<Rightarrow> entry" where
  "entry_of command r =
     [(''timestamp'', PyDatetime (fst (datetime_now (env r)))), (''command'', PyStr command)]"

text \<open>A valid time of day.\<close>

definition valid_time :: "datetime \<Rightarrow> bool" where
  "valid_time t = (hour t < 24 \<and> minute t < 60)"

definition is_digit :: "char \<Rightarrow> bool" where
  "is_digit c = (48 \<le> (of_char c :: nat) \<and> (of_char c :: nat) \<le> 57)"

text \<open>The shape \<open>HH:MM AM\<close> or \<open>HH:MM PM\<close>.\<close>

fun is_time_string :: "string \<Rightarrow> bool" where
  "is_time_string [h1, h2, c, m1, m2, sp, p, m] =
     (is_digit h1 \<and> is_digit h2 \<and> c = CHR '':'' \<and> is_digit m1 \<and> is_digit m2 \<and>
      sp = CHR '' '' \<and> (p = CHR ''A'' \<or> p = CHR ''P'') \<and> m = CHR ''M'')"
| "is_time_string _ = False"

text \<open>
  A capture without usable speech: listening timed out, or the audio was heard and the
  recognizer could not transcribe it.
\<close>

fun is_timeout :: "exn \<Rightarrow> bool" where
  "is_timeout (WaitTimeoutError m) = True"
| "is_timeout e = False"

fun is_unknown_value :: "exn \<Rightarrow> bool" where
  "is_unknown_value (UnknownValueError m) = True"
| "is_unknown_value e = False"

definition no_speech :: "capture \<Rightarrow> bool" where
  "no_speech cap =
     (case heard cap of
        Raises e \<Rightarrow> is_timeout e
      | Returns audio \<Rightarrow>
          (case google cap of Raises e \<Rightarrow> is_unknown_value e | Returns text \<Rightarrow> False))"

text \<open>
  A capture whose audio is heard while the Google recognizer cannot be reached and the
  offline Sphinx recognizer, tried as a fallback, fails on the audio.
\<close>

fun is_request_error :: "exn \<Rightarrow> bool" where
  "is_request_error (RequestError m) = True"
| "is_request_error e = False"

definition no_speech_fallback :: "capture \<Rightarrow> bool" where
  "no_speech_fallback cap =
     (case heard cap of
        Raises e \<Rightarrow> False
      | Returns audio \<Rightarrow>
          (case google cap of
             Returns text \<Rightarrow> False
           | Raises e \<Rightarrow>
               is_request_error e \<and>
               (case sphinx cap of Raises e2 \<Rightarrow> True | Returns text \<Rightarrow> False)))"

text \<open>The world after a call of \<open>listen\<close> that took the fallback and still got no text.\<close>

definition after_fallback :: "world \<Rightarrow> world" where
  "after_fallback w =
     logger_warning ''Google recognition failed, trying alternatives...''
       (w\<lparr>capture_reads := Suc (capture_reads w)\<rparr>)"

subsection \<open>Sample inputs\<close>

definition sample_time :: datetime where
  "sample_time = \<lparr>year = 2024, month = 5, day = 17, hour = 14, minute = 5, second = 9\<rparr>"

definition timed_out :: capture where
  "timed_out =
     \<lparr>heard = Raises (WaitTimeoutError ''listening timed out''),
      google = Raises (UnknownValueError []), sphinx = Raises (UnknownValueError [])\<rparr>"

definition unintelligible :: capture where
  "unintelligible =
     \<lparr>heard = Returns (), google = Raises (UnknownValueError []),
      sphinx = Raises (UnknownValueError [])\<rparr>"

definition says :: "string \<Rightarrow> capture" where
  "says text =
     \<lparr>heard = Returns (), google = Returns text, sphinx = Raises (UnknownValueError [])\<rparr>"

text \<open>A world where nothing is said and no service fails.\<close>

definition quiet_world :: world where
  "quiet_world =
     \<lparr>spoken = [], logged = [], opened = [], clock = (\<lambda>k. sample_time), clock_reads = 0,
      microphone = (\<lambda>k timeout phrase_limit. timed_out), capture_reads = 0,
      tts = (\<lambda>text. None), tts_stop = None, browser = (\<lambda>url. None), save_prefs = None\<rparr>"

text \<open>A world where the audio of every capture is unintelligible.\<close>

definition mumbling_world :: world where
  "mumbling_world = quiet_world\<lparr>microphone := (\<lambda>k timeout phrase_limit. unintelligible)\<rparr>"

text \<open>
  A world where the audio of every capture is unintelligible and the Google recognizer
  cannot be reached.
\<close>

definition offline_unintelligible :: capture where
  "offline_unintelligible =
     \<lparr>heard = Returns (), google = Raises (RequestError ''recognition connection failed''),
      sphinx = Raises (UnknownValueError [])\<rparr>"

definition offline_world :: world where
  "offline_world =
     quiet_world\<lparr>microphone := (\<lambda>k timeout phrase_limit. offline_unintelligible)\<rparr>"

text \<open>A world where the user says the wake phrase, then \<open>that is quite nice\<close>.\<close>

definition chatty_world :: world where
  "chatty_world =
     quiet_world\<lparr>microphone :=
       (\<lambda>k timeout phrase_limit. if k = 0 then says ''Hey Ron'' else says ''That is quite nice'')\<rparr>"

definition new_ron :: "world \<Rightarrow> ron" where
  "new_ron w =
     \<lparr>env = w, command_history = [], is_running = True,
      wake_words = [''hey ron'', ''ron'', ''hey assistant'']\<rparr>"

text \<open>A handler that always fails, and one that only says \<open>ok\<close>.\<close>

definition failing_handler :: handler where
  "failing_handler command w = (Some (OtherException ''service down''), w)"

definition stub_handler :: handler where
  "stub_handler command w = (None, speak ''ok'' w)"

section \<open>Substring containment\<close>

lemma startswith_iff: "startswith s p \<longleftrightarrow> (\<exists>b. s = p @ b)"
  by (induction s p rule: startswith.induct) auto

text \<open>\<open>str_in\<close> is containment as a contiguous substring, at any position.\<close>

lemma str_in_iff: "str_in p s \<longleftrightarrow> (\<exists>a b. s = a @ p @ b)"
proof (induction s)
  case Nil
  then show ?case by auto
next
  case (Cons c s)
  show ?case
  proof
    assume "str_in p (c # s)"
    then consider "startswith (c # s) p" | "str_in p s" by auto
    then show "\<exists>a b. c # s = a @ p @ b"
    proof cases
      case 1
      then obtain b where "c # s = p @ b" by (auto simp: startswith_iff)
      then have "c # s = [] @ p @ b" by simp
      then show ?thesis by blast
    next
      case 2
      then obtain a b where "s = a @ p @ b" using Cons.IH by blast
      then have "c # s = (c # a) @ p @ b" by simp
      then show ?thesis by blast
    qed
  next
    assume "\<exists>a b. c # s = a @ p @ b"
    then obtain a b where ab: "c # s = a @ p @ b" by blast
    show "str_in p (c # s)"
    proof (cases a)
      case Nil
      with ab have "startswith (c # s) p" by (auto simp: startswith_iff)
      then show ?thesis by simp
    next
      case (Cons x a')
      with ab have "s = a' @ p @ b" by simp
      then have "str_in p s" using Cons.IH by blast
      then show ?thesis by simp
    qed
  qed
qed

lemma any_in_iff: "any_in ps s \<longleftrightarrow> (\<exists>p \<in> set ps. \<exists>a b. s = a @ p @ b)"
  by (simp add: any_in_def list_ex_iff str_in_iff)

lemmas text_eval = lower_def lower_char_def char_of_def bit_0 any_in_def

section \<open>The classifier\<close>

lemma classify_loop_first:
  assumes "distinct (map fst tbl)" and "map_of tbl C = Some ps" and "any_in ps s"
    and "\<And>D qs. D \<in> set (takeWhile (\<lambda>D. D \<noteq> C) (map fst tbl)) \<Longrightarrow>
           map_of tbl D = Some qs \<Longrightarrow> \<not> any_in qs s"
  shows "classify_loop tbl s = C"
  using assms
proof (induction tbl)
  case Nil
  then show ?case by simp
next
  case (Cons a tbl)
  obtain t qs where a: "a = (t, qs)" by (cases a)
  show ?case
  proof (cases "t = C")
    case True
    with Cons.prems a show ?thesis by simp
  next
    case False
    have nt: "\<not> any_in qs s"
      using Cons.prems(4)[of t qs] a False by simp
    have m: "map_of tbl C = Some ps" using Cons.prems(2) a False by simp
    have d: "distinct (map fst tbl)" using Cons.prems(1) by simp
    have e: "\<And>D rs. D \<in> set (takeWhile (\<lambda>D. D \<noteq> C) (map fst tbl)) \<Longrightarrow>
               map_of tbl D = Some rs \<Longrightarrow> \<not> any_in rs s"
    proof -
      fix D rs
      assume D: "D \<in> set (takeWhile (\<lambda>D. D \<noteq> C) (map fst tbl))"
        and r: "map_of tbl D = Some rs"
      from D have "D \<in> set (map fst tbl)" by (meson set_takeWhileD)
      with Cons.prems(1) a have "D \<noteq> t" by auto
      with r a have "map_of (a # tbl) D = Some rs" by simp
      moreover from D a False
      have "D \<in> set (takeWhile (\<lambda>D. D \<noteq> C) (map fst (a # tbl)))" by simp
      ultimately show "\<not> any_in rs s" using Cons.prems(4) by blast
    qed
    have "classify_loop tbl s = C" using Cons.IH[OF d m Cons.prems(3)] e by blast
    with nt a show ?thesis by simp
  qed
qed

lemma classify_loop_none:
  "\<forall>x \<in> set tbl. \<not> any_in (snd x) s \<Longrightarrow> classify_loop tbl s = UNKNOWN"
  by (induction tbl s rule: classify_loop.induct) auto

lemma classify_loop_range:
  "classify_loop tbl s = UNKNOWN \<or> classify_loop tbl s \<in> set (map fst tbl)"
  by (induction tbl s rule: classify_loop.induct) auto

lemma category_order_eq:
  "category_order =
     [TIME, DATE, WEATHER, SEARCH, OPEN_APP, VOLUME, MUSIC, INFO, SMART_HOME, REMINDER, NOTE]"
  by (simp add: category_order_def command_patterns_def)

lemma distinct_category_order: "distinct (map fst command_patterns)"
  by (simp add: command_patterns_def)

text \<open>
  Claim C1. The categories are visited in the order Time, Date, Weather, Search, OpenApp,
  Volume, Music, Info, SmartHome, Reminder, Note, and the first one with a match wins:
  if the utterance contains a trigger substring of category \<open>C\<close> and none of any
  category visited before \<open>C\<close>, then it is classified as \<open>C\<close>. Trigger substrings are
  case-insensitive: containment is tested on the lower-cased utterance.
\<close>

theorem classify_first_match:
  assumes "has_trigger C (lower U)"
    and "\<forall>D \<in> set (earlier C). \<not> has_trigger D (lower U)"
  shows "category_order =
           [TIME, DATE, WEATHER, SEARCH, OPEN_APP, VOLUME, MUSIC, INFO, SMART_HOME, REMINDER, NOTE]
         \<and> classify_command U = C"
proof -
  from assms(1) obtain ps
    where ps: "map_of command_patterns C = Some ps" and a: "any_in ps (lower U)"
    by (auto simp: has_trigger_def triggers_of_def any_in_def split: option.splits)
  have "\<And>D qs. D \<in> set (takeWhile (\<lambda>D. D \<noteq> C) (map fst command_patterns)) \<Longrightarrow>
      map_of command_patterns D = Some qs \<Longrightarrow> \<not> any_in qs (lower U)"
    using assms(2) by (auto simp: earlier_def category_order_def has_trigger_def triggers_of_def)
  then have "classify_command U = C"
    unfolding classify_command_def
    using classify_loop_first[OF distinct_category_order ps a] by blast
  then show ?thesis by (simp add: category_order_eq)
qed

theorem classify_first_match_witness:
  "has_trigger WEATHER (lower ''Weather search'') \<and>
   has_trigger SEARCH (lower ''Weather search'') \<and>
   earlier WEATHER = [TIME, DATE] \<and>
   \<not> has_trigger TIME (lower ''Weather search'') \<and>
   \<not> has_trigger DATE (lower ''Weather search'') \<and>
   classify_command ''Weather search'' = WEATHER"
  using classify_first_match[of WEATHER "''Weather search''"]
  by (simp add: has_trigger_def triggers_of_def command_patterns_def earlier_def
      category_order_def text_eval)

text \<open>
  Claim C5. An utterance that contains no trigger substring of any category is classified
  as \<open>UNKNOWN\<close>; so is the empty utterance. \<open>classify_command\<close> is a total function of
  the utterance alone: it has no effect and no way to fail.
\<close>

theorem classify_unknown:
  "((\<forall>C. \<not> has_trigger C (lower U)) \<longrightarrow> classify_command U = UNKNOWN)
   \<and> classify_command [] = UNKNOWN"
proof
  show "(\<forall>C. \<not> has_trigger C (lower U)) \<longrightarrow> classify_command U = UNKNOWN"
  proof
    assume h: "\<forall>C. \<not> has_trigger C (lower U)"
    have "\<forall>x \<in> set command_patterns. \<not> any_in (snd x) (lower U)"
    proof
      fix x assume x: "x \<in> set command_patterns"
      obtain t ps where tp: "x = (t, ps)" by (cases x)
      with x have "map_of command_patterns t = Some ps"
        using distinct_category_order by simp
      moreover have "\<not> has_trigger t (lower U)" using h by blast
      ultimately show "\<not> any_in (snd x) (lower U)"
        using tp by (simp add: has_trigger_def triggers_of_def)
    qed
    then show "classify_command U = UNKNOWN"
      unfolding classify_command_def by (rule classify_loop_none)
  qed
  show "classify_command [] = UNKNOWN"
    by (simp add: classify_command_def command_patterns_def any_in_def lower_def)
qed

theorem classify_unknown_witness:
  "(\<forall>C. \<not> has_trigger C (lower ''Hello there'')) \<and> classify_command ''Hello there'' = UNKNOWN"
proof -
  have h: "\<forall>C. \<not> has_trigger C (lower ''Hello there'')"
  proof
    fix C show "\<not> has_trigger C (lower ''Hello there'')"
      by (cases C) (simp_all add: has_trigger_def triggers_of_def command_patterns_def text_eval)
  qed
  with classify_unknown[of "''Hello there''"] show ?thesis by blast
qed

text \<open>
  Claim C9. The category \<open>SYSTEM\<close> is never the result of \<open>classify_command\<close>: the
  result is \<open>UNKNOWN\<close> or one of the eleven categories of the pattern table.
  \<open>SYSTEM\<close> has no trigger substring in the pattern table and no entry in the handler
  table of \<open>process\<close>.
\<close>

theorem system_unreachable:
  "classify_command U \<noteq> SYSTEM
   \<and> classify_command U \<in> set (UNKNOWN # category_order)
   \<and> SYSTEM \<notin> set category_order
   \<and> triggers_of SYSTEM = []
   \<and> map_of command_patterns SYSTEM = None
   \<and> map_of (handlers self) SYSTEM = None"
proof -
  have r: "classify_command U \<in> set (UNKNOWN # category_order)"
    using classify_loop_range[of command_patterns "lower U"]
    by (auto simp: classify_command_def category_order_def)
  have n: "SYSTEM \<notin> set (UNKNOWN # category_order)" by (simp add: category_order_eq)
  from r n have "classify_command U \<noteq> SYSTEM" by metis
  moreover have "map_of command_patterns SYSTEM = None" by (simp add: command_patterns_def)
  moreover have "triggers_of SYSTEM = []" by (simp add: triggers_of_def command_patterns_def)
  moreover have "map_of (handlers self) SYSTEM = None" by (simp add: handlers_def)
  ultimately show ?thesis using r n by simp
qed

section \<open>The two paths of \<open>process\<close>\<close>

lemma process_exit:
  assumes "has_exit_word U"
  shows "process self U r =
    (False, r\<lparr>env := speak ''Goodbye! It was nice talking to you.'' (world_at_dispatch U r),
              command_history := command_history r @ [entry_of U r]\<rparr>)"
  using assms
  by (simp add: process_def has_exit_word_def world_at_dispatch_def entry_of_def
      datetime_now_def Let_def)

lemma process_dispatch:
  assumes "\<not> has_exit_word U"
  shows "process self U r =
    (case selected_handler self U U (world_at_dispatch U r) of
       (None, w3) \<Rightarrow> (True, r\<lparr>env := w3, command_history := command_history r @ [entry_of U r]\<rparr>)
     | (Some e, w3) \<Rightarrow>
         (True, r\<lparr>env := speak ''Sorry, I encountered an error processing that command.''
                            (logger_error (''Command processing error: '' @ exn_str e) w3),
                   command_history := command_history r @ [entry_of U r]\<rparr>))"
  using assms
  by (simp add: process_def has_exit_word_def world_at_dispatch_def entry_of_def
      datetime_now_def selected_handler_def Let_def split: prod.splits option.splits)

lemma spoken_speak: "spoken (speak text w) = spoken w @ [text]"
  by (simp add: speak_def logger_error_def logger_log_def Let_def split: option.splits)

lemmas world_eval = quiet_world_def new_ron_def sample_time_def world_at_dispatch_def
  datetime_now_def logger_info_def logger_error_def logger_log_def speak_def entry_of_def

text \<open>
  Claim C3. A failure of the selected handler does not leave \<open>process\<close>: whenever the
  handler selected for an utterance raises an exception, \<open>process\<close> returns, with the
  flag to continue set, after logging the failure and speaking the generic apology.
  (For an utterance with a termination phrase no handler is selected.)
\<close>

theorem process_handler_failure:
  assumes "\<not> has_exit_word U"
    and "selected_handler self U U (world_at_dispatch U r) = (Some e, w)"
  shows "process self U r =
           (True, r\<lparr>env := speak ''Sorry, I encountered an error processing that command.''
                              (logger_error (''Command processing error: '' @ exn_str e) w),
                     command_history := command_history r @ [entry_of U r]\<rparr>)
         \<and> fst (process self U r) = True
         \<and> spoken (env (snd (process self U r))) =
             spoken w @ [''Sorry, I encountered an error processing that command.'']"
  using assms by (simp add: process_dispatch spoken_speak logger_error_def logger_log_def)

theorem process_handler_failure_witness:
  "\<not> has_exit_word ''what time is it''
   \<and> selected_handler (\<lambda>t. failing_handler) ''what time is it'' ''what time is it''
       (world_at_dispatch ''what time is it'' (new_ron quiet_world))
     = (Some (OtherException ''service down''),
        world_at_dispatch ''what time is it'' (new_ron quiet_world))
   \<and> fst (process (\<lambda>t. failing_handler) ''what time is it'' (new_ron quiet_world)) = True
   \<and> spoken (env (snd (process (\<lambda>t. failing_handler) ''what time is it'' (new_ron quiet_world))))
       = [''Sorry, I encountered an error processing that command.'']"
proof -
  have h1: "\<not> has_exit_word ''what time is it''"
    by (simp add: has_exit_word_def exit_words_def text_eval)
  have c: "classify_command ''what time is it'' = TIME"
    by (simp add: classify_command_def command_patterns_def text_eval)
  have h2: "selected_handler (\<lambda>t. failing_handler) ''what time is it'' ''what time is it''
       (world_at_dispatch ''what time is it'' (new_ron quiet_world))
     = (Some (OtherException ''service down''),
        world_at_dispatch ''what time is it'' (new_ron quiet_world))"
    by (simp add: selected_handler_def c dict_get_def handlers_def failing_handler_def)
  have s: "spoken (world_at_dispatch ''what time is it'' (new_ron quiet_world)) = []"
    by (simp add: c world_eval)
  from process_handler_failure[OF h1 h2]
  have "fst (process (\<lambda>t. failing_handler) ''what time is it'' (new_ron quiet_world)) = True"
    and "spoken (env (snd (process (\<lambda>t. failing_handler) ''what time is it''
            (new_ron quiet_world))))
       = spoken (world_at_dispatch ''what time is it'' (new_ron quiet_world)) @
         [''Sorry, I encountered an error processing that command.'']"
    by blast+
  with h1 h2 s show ?thesis by simp
qed

section \<open>The history\<close>

lemma history_process:
  "command_history (snd (process self U r)) = command_history r @ [entry_of U r]"
proof (cases "has_exit_word U")
  case True
  then show ?thesis by (simp add: process_exit)
next
  case False
  then show ?thesis by (simp add: process_dispatch split: prod.splits option.splits)
qed

text \<open>
  Claim C4, as the code has it. Every call of \<open>process\<close> appends exactly one entry to
  the history, whichever path it takes; the entry holds the timestamp and the raw
  utterance, under the keys \<open>timestamp\<close> and \<open>command\<close>, and nothing else; the entries
  already there are neither changed nor removed.
\<close>

theorem history_append_only:
  "command_history (snd (process self U r)) =
     command_history r @
       [[(''timestamp'', PyDatetime (clock (env r) (clock_reads (env r)))), (''command'', PyStr U)]]
   \<and> take (length (command_history r)) (command_history (snd (process self U r))) = command_history r
   \<and> length (command_history (snd (process self U r))) = Suc (length (command_history r))"
  by (simp add: history_process entry_of_def datetime_now_def)

text \<open>
  The entry does not hold the resolved category: for \<open>what time is it\<close>, classified as
  \<open>TIME\<close>, the entry has the two keys \<open>timestamp\<close> and \<open>command\<close>, and none of its
  values is the category.
\<close>

theorem history_entry_has_no_category:
  "classify_command ''what time is it'' = TIME
   \<and> map fst (last (command_history (snd (process (ron_methods (\<lambda>t. stub_handler))
        ''what time is it'' (new_ron quiet_world))))) = [''timestamp'', ''command'']
   \<and> map snd (last (command_history (snd (process (ron_methods (\<lambda>t. stub_handler))
        ''what time is it'' (new_ron quiet_world))))) = [PyDatetime sample_time, PyStr ''what time is it'']
   \<and> PyEnum TIME \<notin> set (map snd (last (command_history (snd (process (ron_methods (\<lambda>t. stub_handler))
        ''what time is it'' (new_ron quiet_world))))))"
proof -
  have c: "classify_command ''what time is it'' = TIME"
    by (simp add: classify_command_def command_patterns_def text_eval)
  have "last (command_history (snd (process (ron_methods (\<lambda>t. stub_handler))
        ''what time is it'' (new_ron quiet_world)))) =
        [(''timestamp'', PyDatetime sample_time), (''command'', PyStr ''what time is it'')]"
    by (simp add: history_process entry_of_def datetime_now_def new_ron_def quiet_world_def)
  with c show ?thesis by simp
qed

section \<open>Termination phrases\<close>

text \<open>
  Claim C2, as the code has it. For every utterance that contains a termination phrase,
  \<open>process\<close> returns the flag \<open>False\<close>, whatever the category of the utterance, and
  says goodbye. The check comes after the history entry is written and after the
  utterance is classified and the category logged, and before any handler is chosen:
  the result does not depend on the handlers.
\<close>

theorem exit_after_classification:
  assumes "has_exit_word U"
  shows "process self U r =
           (False,
            r\<lparr>env := speak ''Goodbye! It was nice talking to you.''
                       (logger_info (''Command type: '' @ CommandType_value (classify_command U))
                          (snd (datetime_now (env r)))),
              command_history := command_history r @ [entry_of U r]\<rparr>)
         \<and> fst (process self U r) = False
         \<and> process self U r = process self' U r
         \<and> spoken (env (snd (process self U r))) =
             spoken (env r) @ [''Goodbye! It was nice talking to you.'']
         \<and> (LInfo, ''Command type: '' @ CommandType_value (classify_command U))
             \<in> set (logged (env (snd (process self U r))))"
  using assms
  by (simp add: process_exit world_at_dispatch_def spoken_speak datetime_now_def
      logger_info_def logger_log_def speak_def logger_error_def Let_def split: option.splits)

theorem exit_after_classification_witness:
  "has_exit_word ''Goodbye Ron''
   \<and> fst (process (ron_methods (\<lambda>t. stub_handler)) ''Goodbye Ron'' (new_ron quiet_world)) = False
   \<and> spoken (env (snd (process (ron_methods (\<lambda>t. stub_handler)) ''Goodbye Ron'' (new_ron quiet_world))))
      = [''Goodbye! It was nice talking to you.'']"
proof -
  have h: "has_exit_word ''Goodbye Ron''"
    by (simp add: has_exit_word_def exit_words_def text_eval)
  have "spoken (env (new_ron quiet_world)) = []" by (simp add: new_ron_def quiet_world_def)
  moreover from exit_after_classification[OF h, of "ron_methods (\<lambda>t. stub_handler)"
      "new_ron quiet_world" "ron_methods (\<lambda>t. stub_handler)"]
  have "fst (process (ron_methods (\<lambda>t. stub_handler)) ''Goodbye Ron'' (new_ron quiet_world)) = False"
    and "spoken (env (snd (process (ron_methods (\<lambda>t. stub_handler)) ''Goodbye Ron''
           (new_ron quiet_world))))
      = spoken (env (new_ron quiet_world)) @ [''Goodbye! It was nice talking to you.'']"
    by blast+
  ultimately show ?thesis using h by simp
qed

text \<open>
  The termination check is not evaluated before classification: for
  \<open>time to say goodbye\<close> the category \<open>time\<close> has been computed and logged when
  \<open>process\<close> returns \<open>False\<close>.
\<close>

theorem exit_check_not_first:
  "has_exit_word ''time to say goodbye''
   \<and> logged (env (new_ron quiet_world)) = []
   \<and> fst (process (ron_methods (\<lambda>t. stub_handler)) ''time to say goodbye'' (new_ron quiet_world)) = False
   \<and> logged (env (snd (process (ron_methods (\<lambda>t. stub_handler)) ''time to say goodbye''
        (new_ron quiet_world)))) = [(LInfo, ''Command type: time'')]"
proof -
  have h: "has_exit_word ''time to say goodbye''"
    by (simp add: has_exit_word_def exit_words_def text_eval)
  have c: "classify_command ''time to say goodbye'' = TIME"
    by (simp add: classify_command_def command_patterns_def text_eval)
  show ?thesis using h by (simp add: process_exit c world_eval)
qed

section \<open>The time and search handlers\<close>

lemma is_digit_digit_char: "is_digit (digit_char n)"
proof -
  have "n mod 10 < 10" by simp
  then have "(48 + n mod 10) mod 256 = 48 + n mod 10" by simp
  then show ?thesis by (simp add: is_digit_def digit_char_def)
qed

lemma is_time_string_strftime: "is_time_string (strftime_I_M_p t)"
  by (simp add: strftime_I_M_p_def two_digits_def is_digit_digit_char)

text \<open>
  Claim C6. The input \<open>search for rust programming\<close> is classified as \<open>SEARCH\<close>, and
  the query that \<open>_handle_search\<close> extracts from it is \<open>rust programming\<close>: this is the
  query of the URL it opens and of the sentence it speaks.
\<close>

theorem search_scenario:
  "classify_command ''search for rust programming'' = SEARCH
   \<and> search_query ''search for rust programming'' = Inr ''rust programming''
   \<and> handle_search ''search for rust programming'' w =
       (case browser w ''https://www.google.com/search?q=rust programming'' of
          None \<Rightarrow> (None, speak ''I've opened search results for rust programming''
                      (w\<lparr>opened := opened w @ [''https://www.google.com/search?q=rust programming'']\<rparr>))
        | Some e \<Rightarrow> search_except e w)
   \<and> opened (snd (handle_search ''search for rust programming'' quiet_world)) =
       [''https://www.google.com/search?q=rust programming'']
   \<and> spoken (snd (handle_search ''search for rust programming'' quiet_world)) =
       [''I've opened search results for rust programming'']"
proof -
  have c: "classify_command ''search for rust programming'' = SEARCH"
    by (simp add: classify_command_def command_patterns_def text_eval)
  have l: "lower ''search for rust programming'' = ''search for rust programming''"
    by (simp add: text_eval)
  have q: "search_query ''search for rust programming'' = Inr ''rust programming''"
    by (simp add: search_query_def search_terms_def l split_def last_part_def strip_def isspace_def)
  have h: "handle_search ''search for rust programming'' w =
       (case browser w ''https://www.google.com/search?q=rust programming'' of
          None \<Rightarrow> (None, speak ''I've opened search results for rust programming''
                      (w\<lparr>opened := opened w @ [''https://www.google.com/search?q=rust programming'']\<rparr>))
        | Some e \<Rightarrow> search_except e w)" for w
    by (simp add: handle_search_def q l webbrowser_open_def split: option.splits)
  have o: "opened (snd (handle_search ''search for rust programming'' quiet_world)) =
       [''https://www.google.com/search?q=rust programming'']"
    by (simp add: h quiet_world_def speak_def)
  have s: "spoken (snd (handle_search ''search for rust programming'' quiet_world)) =
       [''I've opened search results for rust programming'']"
    by (simp add: h quiet_world_def speak_def)
  from c q h o s show ?thesis by blast
qed

text \<open>
  Claim C7. The input \<open>what time is it\<close> is classified as \<open>TIME\<close>; \<open>process\<close> returns
  the flag \<open>True\<close>, and the response spoken is \<open>It's\<close> followed by the time of the
  clock, formatted as \<open>HH:MM AM\<close> or \<open>HH:MM PM\<close> on the 12-hour clock.
\<close>

theorem time_scenario:
  "classify_command ''what time is it'' = TIME
   \<and> fst (process (ron_methods ext) ''what time is it'' r) = True
   \<and> spoken (env (snd (process (ron_methods ext) ''what time is it'' r))) =
       spoken (env r) @ [''It's '' @ strftime_I_M_p (clock (env r) (Suc (clock_reads (env r))))]
   \<and> is_time_string (strftime_I_M_p t)
   \<and> (valid_time t \<longrightarrow>
        strftime_I_M_p t =
          two_digits (if hour t = 0 \<or> hour t = 12 then 12 else if hour t < 12 then hour t else hour t - 12)
          @ '':'' @ two_digits (minute t) @ '' '' @ (if hour t < 12 then ''AM'' else ''PM''))"
proof -
  have c: "classify_command ''what time is it'' = TIME"
    by (simp add: classify_command_def command_patterns_def text_eval)
  have h: "\<not> has_exit_word ''what time is it''"
    by (simp add: has_exit_word_def exit_words_def text_eval)
  have sel: "selected_handler (ron_methods ext) ''what time is it'' = handle_time"
    by (simp add: selected_handler_def c dict_get_def handlers_def)
  have p: "process (ron_methods ext) ''what time is it'' r =
      (True, r\<lparr>env := snd (handle_time ''what time is it'' (world_at_dispatch ''what time is it'' r)),
                command_history := command_history r @ [entry_of ''what time is it'' r]\<rparr>)"
    by (simp add: process_dispatch[OF h] sel handle_time_def datetime_now_def Let_def)
  have s: "spoken (snd (handle_time ''what time is it'' (world_at_dispatch ''what time is it'' r))) =
       spoken (env r) @ [''It's '' @ strftime_I_M_p (clock (env r) (Suc (clock_reads (env r))))]"
    by (simp add: handle_time_def datetime_now_def Let_def spoken_speak world_at_dispatch_def
        logger_info_def logger_log_def)
  have v: "valid_time t \<longrightarrow>
        strftime_I_M_p t =
          two_digits (if hour t = 0 \<or> hour t = 12 then 12 else if hour t < 12 then hour t else hour t - 12)
          @ '':'' @ two_digits (minute t) @ '' '' @ (if hour t < 12 then ''AM'' else ''PM'')"
  proof
    assume "valid_time t"
    then have "hour t < 24" by (simp add: valid_time_def)
    then have "(if hour t mod 12 = 0 then 12 else hour t mod 12) =
       (if hour t = 0 \<or> hour t = 12 then 12 else if hour t < 12 then hour t else hour t - 12)"
      by (auto simp: mod_if)
    then show "strftime_I_M_p t =
          two_digits (if hour t = 0 \<or> hour t = 12 then 12 else if hour t < 12 then hour t else hour t - 12)
          @ '':'' @ two_digits (minute t) @ '' '' @ (if hour t < 12 then ''AM'' else ''PM'')"
      by (simp add: strftime_I_M_p_def)
  qed
  from c p s v is_time_string_strftime[of t] show ?thesis by simp
qed

theorem time_scenario_witness:
  "valid_time sample_time
   \<and> strftime_I_M_p sample_time = ''02:05 PM''
   \<and> fst (process (ron_methods (\<lambda>t. stub_handler)) ''what time is it'' (new_ron quiet_world)) = True
   \<and> spoken (env (snd (process (ron_methods (\<lambda>t. stub_handler)) ''what time is it''
         (new_ron quiet_world)))) = [''It's 02:05 PM'']"
proof -
  have v: "valid_time sample_time" by (simp add: valid_time_def sample_time_def)
  have e: "two_digits 2 = ''02''" "two_digits 5 = ''05''"
    by (simp_all add: two_digits_def digit_char_def char_of_def bit_0)
  have c: "clock (env (new_ron quiet_world)) k = sample_time" for k
    by (simp add: new_ron_def quiet_world_def)
  have s: "spoken (env (new_ron quiet_world)) = []" by (simp add: new_ron_def quiet_world_def)
  from time_scenario[of "\<lambda>t. stub_handler" "new_ron quiet_world" sample_time] v
  have 1: "fst (process (ron_methods (\<lambda>t. stub_handler)) ''what time is it'' (new_ron quiet_world)) = True"
    and 2: "spoken (env (snd (process (ron_methods (\<lambda>t. stub_handler)) ''what time is it''
         (new_ron quiet_world)))) = spoken (env (new_ron quiet_world)) @
           [''It's '' @ strftime_I_M_p (clock (env (new_ron quiet_world))
              (Suc (clock_reads (env (new_ron quiet_world)))))]"
    and 3: "strftime_I_M_p sample_time =
          two_digits (if hour sample_time = 0 \<or> hour sample_time = 12 then 12
                      else if hour sample_time < 12 then hour sample_time else hour sample_time - 12)
          @ '':'' @ two_digits (minute sample_time) @ '' '' @
          (if hour sample_time < 12 then ''AM'' else ''PM'')"
    by blast+
  have 4: "strftime_I_M_p sample_time = ''02:05 PM''"
    unfolding 3 by (simp add: sample_time_def e)
  from v 1 2 4 c s show ?thesis by simp
qed

section \<open>Capture and the session loop\<close>

lemma listen_no_speech:
  assumes "no_speech (microphone w (capture_reads w) t p)"
  shows "listen t p w = (None, w\<lparr>capture_reads := Suc (capture_reads w)\<rparr>)"
proof (cases "heard (microphone w (capture_reads w) t p)")
  case (Raises e)
  with assms have "is_timeout e" by (simp add: no_speech_def)
  then obtain m where "e = WaitTimeoutError m" by (cases e) auto
  with Raises show ?thesis
    by (simp add: listen_def Let_def logger_debug_def logger_log_def)
next
  case (Returns audio)
  with assms obtain e where g: "google (microphone w (capture_reads w) t p) = Raises e"
    and "is_unknown_value e"
    by (auto simp: no_speech_def split: attempt.splits)
  then obtain m where "e = UnknownValueError m" by (cases e) auto
  with Returns g show ?thesis
    by (simp add: listen_def Let_def logger_debug_def logger_log_def)
qed

lemma speak_microphone [simp]:
  "microphone (speak text w) = microphone w" "capture_reads (speak text w) = capture_reads w"
  by (simp_all add: speak_def logger_error_def logger_log_def Let_def split: option.splits)

lemma listen_fallback:
  assumes "no_speech_fallback (microphone w (capture_reads w) t p)"
  shows "listen t p w = (None, after_fallback w)"
proof -
  from assms obtain audio where h: "heard (microphone w (capture_reads w) t p) = Returns audio"
    by (auto simp: no_speech_fallback_def split: attempt.splits)
  from assms h obtain e where g: "google (microphone w (capture_reads w) t p) = Raises e"
    and r: "is_request_error e"
    by (auto simp: no_speech_fallback_def split: attempt.splits)
  from r obtain m where e: "e = RequestError m" by (cases e) auto
  from assms h g obtain e2 where s: "sphinx (microphone w (capture_reads w) t p) = Raises e2"
    by (auto simp: no_speech_fallback_def split: attempt.splits)
  from h g e s show ?thesis
    by (simp add: listen_def after_fallback_def Let_def logger_debug_def logger_warning_def
        logger_log_def)
qed

lemma after_fallback_fields:
  "spoken (after_fallback w) = spoken w"
  "microphone (after_fallback w) = microphone w"
  "capture_reads (after_fallback w) = Suc (capture_reads w)"
  "logged (after_fallback w) =
     logged w @ [(LWarning, ''Google recognition failed, trying alternatives...'')]"
  by (simp_all add: after_fallback_def logger_warning_def logger_log_def)

text \<open>
  Claim C8. When listening times out, or when the audio cannot be transcribed, \<open>listen\<close>
  returns \<open>None\<close> and raises nothing; the audio is unintelligible either to the Google
  recognizer, or, when that one cannot be reached, to the Sphinx recognizer tried in its
  place (then a warning is logged). The session goes on in every case: while waiting
  for the wake phrase the pass of the loop says nothing, leaves the history and
  \<open>is_running\<close> as they are, and the loop continues; after activation the assistant
  says that it did not hear anything and keeps running.
\<close>

theorem capture_total:
  "(no_speech (microphone w (capture_reads w) t p) \<longrightarrow>
      listen t p w = (None, w\<lparr>capture_reads := Suc (capture_reads w)\<rparr>))
   \<and> (no_speech_fallback (microphone w (capture_reads w) t p) \<longrightarrow>
        listen t p w = (None, after_fallback w))
   \<and> (no_speech (microphone (env r) (capture_reads (env r)) 1 3) \<longrightarrow>
        run_iteration self r = r\<lparr>env := (env r)\<lparr>capture_reads := Suc (capture_reads (env r))\<rparr>\<rparr>
        \<and> is_running (run_iteration self r) = is_running r
        \<and> spoken (env (run_iteration self r)) = spoken (env r)
        \<and> command_history (run_iteration self r) = command_history r
        \<and> (is_running r \<longrightarrow> run_loop (Suc n) self r = run_loop n self (run_iteration self r)))
   \<and> (no_speech_fallback (microphone (env r) (capture_reads (env r)) 1 3) \<longrightarrow>
        run_iteration self r = r\<lparr>env := after_fallback (env r)\<rparr>
        \<and> is_running (run_iteration self r) = is_running r
        \<and> spoken (env (run_iteration self r)) = spoken (env r)
        \<and> command_history (run_iteration self r) = command_history r
        \<and> (is_running r \<longrightarrow> run_loop (Suc n) self r = run_loop n self (run_iteration self r)))
   \<and> (no_speech (microphone (env r) (capture_reads (env r)) 5 10) \<longrightarrow>
        handle_activation self r =
          r\<lparr>env := speak ''I didn't hear anything. Please try again.''
                     ((speak ''Yes, how can I help you?'' (env r))
                        \<lparr>capture_reads := Suc (capture_reads (env r))\<rparr>)\<rparr>
        \<and> is_running (handle_activation self r) = is_running r)
   \<and> (no_speech_fallback (microphone (env r) (capture_reads (env r)) 5 10) \<longrightarrow>
        handle_activation self r =
          r\<lparr>env := speak ''I didn't hear anything. Please try again.''
                     (after_fallback (speak ''Yes, how can I help you?'' (env r)))\<rparr>
        \<and> is_running (handle_activation self r) = is_running r)"
proof (intro conjI impI)
  assume "no_speech (microphone w (capture_reads w) t p)"
  then show "listen t p w = (None, w\<lparr>capture_reads := Suc (capture_reads w)\<rparr>)"
    by (rule listen_no_speech)
next
  assume "no_speech_fallback (microphone w (capture_reads w) t p)"
  then show "listen t p w = (None, after_fallback w)"
    by (rule listen_fallback)
next
  assume a: "no_speech (microphone (env r) (capture_reads (env r)) 1 3)"
  show i: "run_iteration self r = r\<lparr>env := (env r)\<lparr>capture_reads := Suc (capture_reads (env r))\<rparr>\<rparr>"
    by (simp add: run_iteration_def listen_no_speech[OF a] del: One_nat_def)
  show "is_running (run_iteration self r) = is_running r" by (simp add: i)
  show "spoken (env (run_iteration self r)) = spoken (env r)" by (simp add: i)
  show "command_history (run_iteration self r) = command_history r" by (simp add: i)
  assume "is_running r"
  then show "run_loop (Suc n) self r = run_loop n self (run_iteration self r)" by simp
next
  assume a: "no_speech_fallback (microphone (env r) (capture_reads (env r)) 1 3)"
  show i: "run_iteration self r = r\<lparr>env := after_fallback (env r)\<rparr>"
    by (simp add: run_iteration_def listen_fallback[OF a] del: One_nat_def)
  show "is_running (run_iteration self r) = is_running r" by (simp add: i)
  show "spoken (env (run_iteration self r)) = spoken (env r)"
    by (simp add: i after_fallback_fields)
  show "command_history (run_iteration self r) = command_history r" by (simp add: i)
  assume "is_running r"
  then show "run_loop (Suc n) self r = run_loop n self (run_iteration self r)" by simp
next
  assume a: "no_speech (microphone (env r) (capture_reads (env r)) 5 10)"
  have b: "no_speech (microphone (speak ''Yes, how can I help you?'' (env r))
             (capture_reads (speak ''Yes, how can I help you?'' (env r))) 5 10)"
    using a by simp
  show h: "handle_activation self r =
          r\<lparr>env := speak ''I didn't hear anything. Please try again.''
                     ((speak ''Yes, how can I help you?'' (env r))
                        \<lparr>capture_reads := Suc (capture_reads (env r))\<rparr>)\<rparr>"
    by (simp add: handle_activation_def listen_no_speech[OF b] Let_def)
  show "is_running (handle_activation self r) = is_running r" by (simp add: h)
next
  assume a: "no_speech_fallback (microphone (env r) (capture_reads (env r)) 5 10)"
  have b: "no_speech_fallback (microphone (speak ''Yes, how can I help you?'' (env r))
             (capture_reads (speak ''Yes, how can I help you?'' (env r))) 5 10)"
    using a by simp
  show h: "handle_activation self r =
          r\<lparr>env := speak ''I didn't hear anything. Please try again.''
                     (after_fallback (speak ''Yes, how can I help you?'' (env r)))\<rparr>"
    by (simp add: handle_activation_def listen_fallback[OF b] Let_def)
  show "is_running (handle_activation self r) = is_running r" by (simp add: h)
qed

theorem capture_total_witness:
  "no_speech (microphone quiet_world (capture_reads quiet_world) 1 3)
   \<and> fst (listen 1 3 quiet_world) = None
   \<and> no_speech (microphone mumbling_world (capture_reads mumbling_world) 1 3)
   \<and> fst (listen 1 3 mumbling_world) = None
   \<and> no_speech_fallback (microphone offline_world (capture_reads offline_world) 1 3)
   \<and> fst (listen 1 3 offline_world) = None
   \<and> is_running (new_ron quiet_world)
   \<and> is_running (run_iteration (ron_methods (\<lambda>t. stub_handler)) (new_ron quiet_world))
   \<and> spoken (env (run_iteration (ron_methods (\<lambda>t. stub_handler)) (new_ron quiet_world))) = []
   \<and> no_speech (microphone (env (new_ron mumbling_world))
        (capture_reads (env (new_ron mumbling_world))) 5 10)
   \<and> is_running (handle_activation (ron_methods (\<lambda>t. stub_handler)) (new_ron mumbling_world))
   \<and> no_speech_fallback (microphone (env (new_ron offline_world))
        (capture_reads (env (new_ron offline_world))) 1 3)
   \<and> is_running (run_iteration (ron_methods (\<lambda>t. stub_handler)) (new_ron offline_world))
   \<and> spoken (env (run_iteration (ron_methods (\<lambda>t. stub_handler)) (new_ron offline_world))) = []
   \<and> no_speech_fallback (microphone (env (new_ron offline_world))
        (capture_reads (env (new_ron offline_world))) 5 10)
   \<and> is_running (handle_activation (ron_methods (\<lambda>t. stub_handler)) (new_ron offline_world))"
proof -
  have q: "no_speech (microphone quiet_world (capture_reads quiet_world) 1 3)"
    by (simp add: no_speech_def quiet_world_def timed_out_def)
  have m: "no_speech (microphone mumbling_world (capture_reads mumbling_world) 1 3)"
    by (simp add: no_speech_def mumbling_world_def quiet_world_def unintelligible_def)
  have f: "no_speech_fallback (microphone offline_world (capture_reads offline_world) 1 3)"
    by (simp add: no_speech_fallback_def offline_world_def quiet_world_def
        offline_unintelligible_def)
  have q': "no_speech (microphone (env (new_ron quiet_world))
      (capture_reads (env (new_ron quiet_world))) 1 3)"
    using q by (simp add: new_ron_def)
  have m': "no_speech (microphone (env (new_ron mumbling_world))
      (capture_reads (env (new_ron mumbling_world))) 5 10)"
    by (simp add: no_speech_def mumbling_world_def quiet_world_def unintelligible_def new_ron_def)
  have f1: "no_speech_fallback (microphone (env (new_ron offline_world))
      (capture_reads (env (new_ron offline_world))) 1 3)"
    using f by (simp add: new_ron_def)
  have f5: "no_speech_fallback (microphone (env (new_ron offline_world))
      (capture_reads (env (new_ron offline_world))) 5 10)"
    by (simp add: no_speech_fallback_def offline_world_def quiet_world_def
        offline_unintelligible_def new_ron_def)
  have r: "is_running (new_ron quiet_world)" "is_running (new_ron mumbling_world)"
    "is_running (new_ron offline_world)"
    "spoken (env (new_ron quiet_world)) = []" "spoken (env (new_ron offline_world)) = []"
    by (simp_all add: new_ron_def quiet_world_def offline_world_def)
  from capture_total[of quiet_world 1 3 "new_ron quiet_world" "ron_methods (\<lambda>t. stub_handler)" 0]
    q q'
  have 1: "listen 1 3 quiet_world =
      (None, quiet_world\<lparr>capture_reads := Suc (capture_reads quiet_world)\<rparr>)"
    and 2: "is_running (run_iteration (ron_methods (\<lambda>t. stub_handler)) (new_ron quiet_world)) =
      is_running (new_ron quiet_world)"
    and 3: "spoken (env (run_iteration (ron_methods (\<lambda>t. stub_handler)) (new_ron quiet_world))) =
      spoken (env (new_ron quiet_world))"
    by blast+
  from capture_total[of mumbling_world 1 3 "new_ron mumbling_world"
      "ron_methods (\<lambda>t. stub_handler)" 0] m m'
  have 4: "listen 1 3 mumbling_world =
      (None, mumbling_world\<lparr>capture_reads := Suc (capture_reads mumbling_world)\<rparr>)"
    and 5: "is_running (handle_activation (ron_methods (\<lambda>t. stub_handler))
        (new_ron mumbling_world)) = is_running (new_ron mumbling_world)"
    by blast+
  from capture_total[of offline_world 1 3 "new_ron offline_world"
      "ron_methods (\<lambda>t. stub_handler)" 0] f f1 f5
  have 6: "listen 1 3 offline_world = (None, after_fallback offline_world)"
    and 7: "is_running (run_iteration (ron_methods (\<lambda>t. stub_handler)) (new_ron offline_world)) =
      is_running (new_ron offline_world)"
    and 8: "spoken (env (run_iteration (ron_methods (\<lambda>t. stub_handler)) (new_ron offline_world))) =
      spoken (env (new_ron offline_world))"
    and 9: "is_running (handle_activation (ron_methods (\<lambda>t. stub_handler))
        (new_ron offline_world)) = is_running (new_ron offline_world)"
    by blast+
  from q m f m' f1 f5 r 1 2 3 4 5 6 7 8 9 show ?thesis by simp
qed

lemma run_iteration_woken:
  assumes "fst (listen 1 3 (env r)) = Some t" and "t \<noteq> []" and "any_in (wake_words r) t"
  shows "run_iteration self r = handle_activation self (r\<lparr>env := snd (listen 1 3 (env r))\<rparr>)"
  using assms by (cases "listen 1 3 (env r)") (simp add: run_iteration_def del: One_nat_def)

lemma handle_activation_command:
  assumes "fst (listen 5 10 (speak ''Yes, how can I help you?'' (env r))) = Some U" and "U \<noteq> []"
  shows "handle_activation self r =
    (let r2 = r\<lparr>env := snd (listen 5 10 (speak ''Yes, how can I help you?'' (env r)))\<rparr>;
         r3 = snd (process self U r2)
     in if fst (process self U r2) then r3 else r3\<lparr>is_running := False\<rparr>)"
  using assms
  by (cases "listen 5 10 (speak ''Yes, how can I help you?'' (env r))";
      cases "process self U (r\<lparr>env := snd (listen 5 10 (speak ''Yes, how can I help you?'' (env r)))\<rparr>)")
    (simp add: handle_activation_def Let_def)

lemma has_exit_wordI:
  assumes "x \<in> set exit_words" and "lower U = a @ x @ b"
  shows "has_exit_word U"
  using assms by (auto simp: has_exit_word_def any_in_iff)

text \<open>
  Claim C10. The termination check is substring containment on the lower-cased
  utterance: if \<open>goodbye\<close>, \<open>exit\<close>, \<open>quit\<close> or \<open>bye\<close> occurs anywhere in it, with any
  text before and after (so also inside a longer word, as \<open>quit\<close> in \<open>quite\<close>),
  \<open>process\<close> returns \<open>False\<close>, \<open>handle_activation\<close> clears \<open>is_running\<close>, and the
  loop of \<open>run\<close> ends after that pass.
\<close>

theorem exit_word_anywhere:
  assumes "x \<in> set exit_words" and "lower U = a @ x @ b"
  shows "fst (process self U r) = False
    \<and> (fst (listen 5 10 (speak ''Yes, how can I help you?'' (env r))) = Some U \<longrightarrow>
         \<not> is_running (handle_activation self r))
    \<and> (is_running r \<and> fst (listen 1 3 (env r)) = Some t \<and> t \<noteq> [] \<and> any_in (wake_words r) t \<and>
        fst (listen 5 10 (speak ''Yes, how can I help you?'' (snd (listen 1 3 (env r))))) = Some U \<longrightarrow>
         \<not> is_running (run_iteration self r) \<and>
         run_loop (Suc n) self r = Some (run_iteration self r))"
proof -
  have e: "has_exit_word U" using assms by (rule has_exit_wordI)
  have x: "x \<noteq> []" using assms(1) by (auto simp: exit_words_def)
  have ne: "U \<noteq> []"
  proof
    assume "U = []"
    then have "lower U = []" by (simp add: lower_def)
    with assms(2) x show False by simp
  qed
  have f: "fst (process self U r') = False" for r' by (simp add: process_exit[OF e])
  have act: "\<not> is_running (handle_activation self r')"
    if "fst (listen 5 10 (speak ''Yes, how can I help you?'' (env r'))) = Some U" for r'
    by (simp add: handle_activation_command[OF that ne] f Let_def)
  have loop: "\<not> is_running (run_iteration self r) \<and>
         run_loop (Suc n) self r = Some (run_iteration self r)"
    if a: "is_running r" "fst (listen 1 3 (env r)) = Some t" "t \<noteq> []" "any_in (wake_words r) t"
      "fst (listen 5 10 (speak ''Yes, how can I help you?'' (snd (listen 1 3 (env r))))) = Some U"
  proof -
    have i: "run_iteration self r = handle_activation self (r\<lparr>env := snd (listen 1 3 (env r))\<rparr>)"
      using a(2-4) by (rule run_iteration_woken)
    have n: "\<not> is_running (run_iteration self r)"
      unfolding i using a(5) by (intro act) simp
    then have "run_loop n self (run_iteration self r) = Some (run_iteration self r)"
      by (cases n) simp_all
    with a(1) n show ?thesis by simp
  qed
  from f act loop show ?thesis by blast
qed

theorem exit_word_anywhere_witness:
  "''quit'' \<in> set exit_words
   \<and> lower ''that is quite nice'' = ''that is '' @ ''quit'' @ ''e nice''
   \<and> is_running (new_ron chatty_world)
   \<and> fst (listen 1 3 (env (new_ron chatty_world))) = Some ''hey ron''
   \<and> any_in (wake_words (new_ron chatty_world)) ''hey ron''
   \<and> fst (listen 5 10 (speak ''Yes, how can I help you?''
         (snd (listen 1 3 (env (new_ron chatty_world)))))) = Some ''that is quite nice''
   \<and> fst (process (ron_methods (\<lambda>t. stub_handler)) ''that is quite nice'' (new_ron chatty_world)) = False
   \<and> \<not> is_running (run_iteration (ron_methods (\<lambda>t. stub_handler)) (new_ron chatty_world))
   \<and> run_loop (Suc 0) (ron_methods (\<lambda>t. stub_handler)) (new_ron chatty_world) =
       Some (run_iteration (ron_methods (\<lambda>t. stub_handler)) (new_ron chatty_world))"
proof -
  have h1: "''quit'' \<in> set exit_words" by (simp add: exit_words_def)
  have h2: "lower ''that is quite nice'' = ''that is '' @ ''quit'' @ ''e nice''"
    by (simp add: text_eval)
  have h3: "is_running (new_ron chatty_world)" by (simp add: new_ron_def)
  have l1: "listen 1 3 (env (new_ron chatty_world)) =
      (Some ''hey ron'', logger_info ''Recognized: hey ron'' (chatty_world\<lparr>capture_reads := 1\<rparr>))"
    by (simp add: listen_def new_ron_def chatty_world_def quiet_world_def says_def text_eval
        logger_debug_def logger_log_def Let_def)
  have h4: "fst (listen 1 3 (env (new_ron chatty_world))) = Some ''hey ron''"
    using l1 by simp
  have h5: "any_in (wake_words (new_ron chatty_world)) ''hey ron''"
    by (simp add: new_ron_def any_in_def)
  have h6: "fst (listen 5 10 (speak ''Yes, how can I help you?''
         (snd (listen 1 3 (env (new_ron chatty_world)))))) = Some ''that is quite nice''"
    unfolding l1
    by (simp add: listen_def speak_def logger_info_def logger_debug_def logger_log_def
        chatty_world_def quiet_world_def says_def text_eval Let_def)
  from exit_word_anywhere[OF h1 h2, of "ron_methods (\<lambda>t. stub_handler)" "new_ron chatty_world"
      "''hey ron''" 0] h3 h4 h5 h6
  have "fst (process (ron_methods (\<lambda>t. stub_handler)) ''that is quite nice'' (new_ron chatty_world)) = False"
    and "\<not> is_running (run_iteration (ron_methods (\<lambda>t. stub_handler)) (new_ron chatty_world))"
    and "run_loop (Suc 0) (ron_methods (\<lambda>t. stub_handler)) (new_ron chatty_world) =
       Some (run_iteration (ron_methods (\<lambda>t. stub_handler)) (new_ron chatty_world))"
    by simp_all
  with h1 h2 h3 h4 h5 h6 show ?thesis by blast
qed

section \<open>Whole sessions\<close>

text \<open>
  Two captures that time out while the assistant waits for the wake phrase: it is still
  running and has said nothing.
\<close>

lemma two_timeouts:
  "is_running (run_iteration self (run_iteration self (new_ron quiet_world)))
   \<and> spoken (env (run_iteration self (run_iteration self (new_ron quiet_world)))) = []"
  by (simp add: run_iteration_def listen_def new_ron_def quiet_world_def timed_out_def
      logger_debug_def logger_log_def Let_def)

text \<open>In a world that stays silent the loop does not end within any two passes.\<close>

lemma run_quiet_twice: "run_loop 2 self (new_ron quiet_world) = None"
  by (simp add: numeral_2_eq_2 run_iteration_def listen_def new_ron_def quiet_world_def
      timed_out_def logger_debug_def logger_log_def Let_def)

text \<open>
  A session where the user says the wake phrase and then \<open>That is quite nice\<close>: the
  assistant greets, acknowledges, says goodbye and shuts down after one pass.
\<close>

lemma run_chatty_session:
  "map_option (\<lambda>r. (spoken (env r), is_running r))
     (run 1 (ron_methods (\<lambda>t. stub_handler)) (new_ron chatty_world)) =
   Some ([''Hello! I'm Ron, your AI assistant. Say 'Hey Ron' to activate me.'',
          ''Yes, how can I help you?'',
          ''Goodbye! It was nice talking to you.'',
          ''Ron shutting down. Goodbye!''], False)"
  by code_simp

end
